theory Spec2Isabelle
  imports Complex_Main
begin

section \<open>Data model of the scaffold manager\<close>

text \<open>
  The source is Python 2 (\<^verbatim>\<open>print\<close> statements, \<^verbatim>\<open>dict.iteritems\<close>, \<^verbatim>\<open>keys()[0]\<close>,
  \<^verbatim>\<open>len(path)/2\<close> used as a slice index). Bin indices are naturals, genomic positions and
  lengths are Python integers (\<open>int\<close>), coverages and contact values are floats, modelled
  as rationals: the float arithmetic in the modelled code multiplies integers by 0.75
  and 1.25 and halves them, which is exact on dyadic rationals; where \<^verbatim>\<open>compute_N50\<close>
  turns a 64-bit integer into a float, the rounding is written out.
\<close>

datatype error =
    HiCAssemblerException
  | AssertionError
  | NameError
  | IndexError
  | KeyError
  | PathGraphEdgeNotPossible
  | IpdbSetTrace

text \<open>
  \<open>IpdbSetTrace\<close> stands for control leaving a method at \<^verbatim>\<open>import ipdb; ipdb.set_trace()\<close>:
  an \<^verbatim>\<open>ImportError\<close> where the debugger is not installed, a stop at its breakpoint where
  it is. The other values are the exceptions of the same name.
\<close>

text \<open>One element of \<^verbatim>\<open>cut_intervals\<close>: (label, start, end, coverage).\<close>

type_synonym interval = "string \<times> int \<times> int \<times> rat"

text \<open>The attribute dictionary that \<^verbatim>\<open>_init_path_graph\<close> stores at every node.\<close>

record node_attr =
  n_name :: string
  n_start :: int
  n_end :: int
  n_coverage :: rat
  n_length :: int

record hiCMatrix =
  matrix :: "rat list list"
  cut_intervals :: "interval list"

section \<open>The path graph\<close>

text \<open>
  Class \<^verbatim>\<open>PathGraph\<close> (module \<^verbatim>\<open>hicassembler.PathGraph\<close>) is imported by the source
  file but is not part of it. The definitions of this section are its model, taken from
  the specification: a graph over bin indices whose connected components are simple
  chains. \<open>node\<close> is the attribute dictionary in insertion order, \<open>path\<close> holds one list
  of nodes per chain; the edges are the pairs of neighbours inside a chain.
\<close>

record PathGraph =
  node :: "(nat \<times> node_attr) list"
  path :: "nat list list"

definition PathGraph_new :: PathGraph where
  \<comment> \<open>Modelled from the spec: the constructor \<^verbatim>\<open>PathGraph()\<close>, a graph with no node.\<close>
  "PathGraph_new = \<lparr>node = [], path = []\<rparr>"

definition add_node :: "PathGraph \<Rightarrow> nat \<Rightarrow> node_attr \<Rightarrow> PathGraph" where
  \<comment> \<open>Modelled from the spec: \<^verbatim>\<open>add_node(id, attrs)\<close> stores the attributes of a node;
      a new node is a path of its own (an isolated node with no edges).\<close>
  "add_node g n attr =
     (if n \<in> fst ` set (node g)
      then g\<lparr>node := map (\<lambda>(k, a). if k = n then (k, attr) else (k, a)) (node g)\<rparr>
      else g\<lparr>node := node g @ [(n, attr)], path := path g @ [[n]]\<rparr>)"

definition add_path :: "PathGraph \<Rightarrow> nat list \<Rightarrow> PathGraph" where
  \<comment> \<open>Modelled from the spec: \<^verbatim>\<open>add_path(ordered_ids)\<close> connects the given nodes as
      one simple chain (index i to index i+1), replacing the paths they were in.\<close>
  "add_path g p = g\<lparr>path := filter (\<lambda>q. set q \<inter> set p = {}) (path g) @ [p]\<rparr>"

definition nodes :: "PathGraph \<Rightarrow> nat list" where
  \<comment> \<open>Modelled from the spec: iteration over the graph (\<^verbatim>\<open>for v in self.contig_G\<close>) yields
      the nodes in insertion order.\<close>
  "nodes g = map fst (node g)"

definition getitem :: "PathGraph \<Rightarrow> nat \<Rightarrow> nat list" where
  \<comment> \<open>Modelled from the spec: \<^verbatim>\<open>self.contig_G[v]\<close>, the full path that contains node v
      (the empty list for an id that is on no path).\<close>
  "getitem g v = (case find (\<lambda>p. v \<in> set p) (path g) of Some p \<Rightarrow> p | None \<Rightarrow> [])"

definition graph_has_edge :: "PathGraph \<Rightarrow> nat \<Rightarrow> nat \<Rightarrow> bool" where
  \<comment> \<open>Modelled from the spec: \<^verbatim>\<open>PathGraph.has_edge(u, v)\<close>, v is the successor of u in
      its chain.\<close>
  "graph_has_edge g u v = ((u, v) \<in> set (zip (getitem g u) (tl (getitem g u))))"

definition degree :: "PathGraph \<Rightarrow> nat \<Rightarrow> nat" where
  \<comment> \<open>Modelled from the spec: \<^verbatim>\<open>degree(id)\<close>, the number of edges at a node (its
      predecessor and its successor in the chain).\<close>
  "degree g v =
     (let p = getitem g v
      in length (filter (\<lambda>(a, b). a = v \<or> b = v) (zip p (tl p))))"

section \<open>The scaffold manager: construction and path enumeration\<close>

text \<open>
  The fields of a \<^verbatim>\<open>Scaffolds\<close> object that its methods read: the matrix object and the
  path graph. (\<^verbatim>\<open>path_id\<close> and \<^verbatim>\<open>split_contigs\<close> are set by the constructor and never used.)
\<close>

record scaffolds =
  hic :: hiCMatrix
  contig_G :: PathGraph

text \<open>
  The loop of \<^verbatim>\<open>_init_path_graph\<close> over \<^verbatim>\<open>enumerate(self.hic.cut_intervals)\<close>. Its state is
  the graph, the accumulator \<^verbatim>\<open>contig_path\<close> and \<^verbatim>\<open>prev_label\<close> (\<open>None\<close> before the first
  bin, which differs from every label).
\<close>

fun init_path_graph_loop ::
  "(nat \<times> interval) list \<Rightarrow> PathGraph \<times> nat list \<times> string option
     \<Rightarrow> PathGraph \<times> nat list \<times> string option" where
  "init_path_graph_loop [] st = st"
| "init_path_graph_loop ((idx, (label, start, end', coverage)) # rest) (g, contig_path, prev_label) =
     (let length' = end' - start;
          attr = \<lparr>n_name = label, n_start = start, n_end = end',
                   n_coverage = coverage, n_length = length'\<rparr>;
          g1 = add_node g idx attr;
          g2 = (if prev_label \<noteq> Some label \<and> length contig_path > 1
                then add_path g1 contig_path else g1);
          contig_path1 = (if prev_label \<noteq> Some label then [] else contig_path)
      in init_path_graph_loop rest (g2, contig_path1 @ [idx], Some label))"

definition init_path_graph :: "scaffolds \<Rightarrow> scaffolds" where
  "init_path_graph S =
     (case init_path_graph_loop (enumerate 0 (cut_intervals (hic S))) (contig_G S, [], None) of
        (g, contig_path, prev_label) \<Rightarrow>
          S\<lparr>contig_G := (if length contig_path > 1 then add_path g contig_path else g)\<rparr>)"

definition Scaffolds :: "hiCMatrix \<Rightarrow> scaffolds" where
  \<comment> \<open>The constructor \<^verbatim>\<open>Scaffolds.__init__(hic_matrix)\<close>.\<close>
  "Scaffolds hic_matrix = init_path_graph \<lparr>hic = hic_matrix, contig_G = PathGraph_new\<rparr>"

fun get_all_paths_loop :: "PathGraph \<Rightarrow> nat list \<Rightarrow> nat set \<Rightarrow> nat list list" where
  "get_all_paths_loop g [] seen = []"
| "get_all_paths_loop g (v # vs) seen =
     (if v \<notin> seen then [getitem g v] else [])
       @ get_all_paths_loop g vs (seen \<union> set (getitem g v))"

definition get_all_paths :: "scaffolds \<Rightarrow> nat list list" where
  "get_all_paths S = get_all_paths_loop (contig_G S) (nodes (contig_G S)) {}"

text \<open>
  \<^verbatim>\<open>[self.contig_G.node[x]['length'] for x in path]\<close>: the lookup of a node that the
  graph does not have raises \<^verbatim>\<open>KeyError\<close>.
\<close>

fun node_lengths :: "PathGraph \<Rightarrow> nat list \<Rightarrow> error + int list" where
  "node_lengths g [] = Inr []"
| "node_lengths g (x # xs) =
     (case map_of (node g) x of
        None \<Rightarrow> Inl KeyError
      | Some a \<Rightarrow>
          (case node_lengths g xs of
             Inl e \<Rightarrow> Inl e
           | Inr ls \<Rightarrow> Inr (n_length a # ls)))"

section \<open>Flank partition of a path\<close>

text \<open>
  The nested function \<^verbatim>\<open>_get_path_flank\<close>. Its loop computes
  \<^verbatim>\<open>flank_sum = sum(path_length[x] for n in flank)\<close>: the generator runs \<open>n\<close> over the
  flank but reads \<^verbatim>\<open>path_length[x]\<close>, and \<open>x\<close> is not a variable of the nested function.
  It is the variable of the enclosing \<^verbatim>\<open>get_flanks\<close> that the list comprehension
  \<^verbatim>\<open>[(x, ...) for x in path]\<close> leaves bound to the last element of \<open>path\<close> (in Python 2
  the variable of a list comprehension belongs to the enclosing function). The model
  takes that \<open>x\<close> as a parameter. The argument \<open>flank\<close> is the list collected so far.
\<close>

fun get_path_flank ::
  "(nat \<Rightarrow> int) \<Rightarrow> nat \<Rightarrow> rat \<Rightarrow> rat \<Rightarrow> nat list \<Rightarrow> nat list \<Rightarrow> nat list" where
  "get_path_flank path_length x tolerance_min tolerance_max flank [] = flank"
| "get_path_flank path_length x tolerance_min tolerance_max flank (n # rest) =
     (let flank_sum = of_int (sum_list (map (\<lambda>n. path_length x) flank)) in
      if flank_sum > tolerance_max then flank
      else if tolerance_min \<le> flank_sum \<and> flank_sum \<le> tolerance_max then flank
      else get_path_flank path_length x tolerance_min tolerance_max (flank @ [n]) rest)"

text \<open>
  The last branch of \<^verbatim>\<open>get_flanks\<close> up to the interior: the two scans (the second over
  the reversed path, its result reversed back), the removal of the overlap from the left
  flank, and the split into halves by index when one of the flanks is empty. \<open>x\<close> is the
  last element of the path (for the empty path the scans read nothing).
\<close>

definition left_right_flanks ::
  "(nat \<Rightarrow> int) \<Rightarrow> rat \<Rightarrow> rat \<Rightarrow> nat list \<Rightarrow> nat list \<times> nat list" where
  "left_right_flanks path_length tolerance_min tolerance_max path' =
     (let x = last path';
          left_flank0 = get_path_flank path_length x tolerance_min tolerance_max [] path';
          right_flank0 =
            rev (get_path_flank path_length x tolerance_min tolerance_max [] (rev path'));
          over = set left_flank0 \<inter> set right_flank0;
          left_flank1 = (if over \<noteq> {} then filter (\<lambda>x. x \<notin> over) left_flank0
                         else left_flank0);
          path_half = length path' div 2
      in if left_flank1 = [] \<or> right_flank0 = []
         then (take path_half path', drop path_half path')
         else (left_flank1, right_flank0))"

text \<open>
  \<^verbatim>\<open>get_flanks(path, flank_length, recursive_repetitions, counter)\<close>. The dictionary
  \<^verbatim>\<open>path_length\<close> is built first (a \<^verbatim>\<open>KeyError\<close> for a node the graph does not have);
  its value sum runs over the distinct keys. \<open>path_half\<close> is Python 2 integer division.
  The \<^verbatim>\<open>try\<close> block at the end of the source function only calls the debugger (when a
  flank is empty) and swallows every exception; it is left out.
\<close>

function get_flanks ::
  "scaffolds \<Rightarrow> nat list \<Rightarrow> int \<Rightarrow> nat \<Rightarrow> nat \<Rightarrow> error + nat list list" where
  "get_flanks S path' flank_length recursive_repetitions counter0 =
     (let counter = counter0 + 1 in
      if counter > recursive_repetitions then Inr []
      else
        case node_lengths (contig_G S) path' of
          Inl e \<Rightarrow> Inl e
        | Inr ls \<Rightarrow>
           (let tolerance_max = of_int flank_length * (5 / 4);
                tolerance_min = of_int flank_length * (3 / 4);
                path_length = (\<lambda>x. the (map_of (zip path' ls) x));
                path_length_sum = sum_list (map path_length (remdups path'))
            in
            if length path' = 1 then
              (if of_int (path_length (path' ! 0)) > tolerance_min \<or> counter = 1
               then Inr [path'] else Inr [])
            else if (of_int path_length_sum :: rat) < 2 * of_int flank_length * (3 / 4) then
              (if counter = 1
               then (let path_half = length path' div 2
                     in Inr [take path_half path', drop path_half path'])
               else Inr [path'])
            else
              (case left_right_flanks path_length tolerance_min tolerance_max path' of
                 (left_flank, right_flank) \<Rightarrow>
                   (let interior = filter (\<lambda>x. x \<notin> set (left_flank @ right_flank)) path' in
                    case (if interior \<noteq> []
                          then get_flanks S interior flank_length recursive_repetitions counter
                          else Inr [])
                    of
                      Inl e \<Rightarrow> Inl e
                    | Inr interior_flanks \<Rightarrow>
                        Inr ((if left_flank \<noteq> [] then [left_flank] else [])
                             @ interior_flanks
                             @ (if right_flank \<noteq> [] then [right_flank] else []))))))"
  by pat_completeness auto
termination
  by (relation "measure (\<lambda>(S, p, fl, rr, c). rr - c)") auto

section \<open>Length filtering and N50\<close>

text \<open>
  The loop of \<^verbatim>\<open>remove_bins_by_size\<close> that collects \<^verbatim>\<open>to_keep\<close>: the indices of every
  path whose summed length is strictly greater than \<^verbatim>\<open>min_length\<close>.
\<close>

fun to_keep_loop :: "PathGraph \<Rightarrow> int \<Rightarrow> nat list list \<Rightarrow> nat list \<Rightarrow> error + nat list" where
  "to_keep_loop g min_length [] to_keep = Inr to_keep"
| "to_keep_loop g min_length (path' # rest) to_keep =
     (case node_lengths g path' of
        Inl e \<Rightarrow> Inl e
      | Inr ls \<Rightarrow>
          to_keep_loop g min_length rest
            (if sum_list ls > min_length then to_keep @ path' else to_keep))"

text \<open>
  \<^verbatim>\<open>self.hic.matrix[to_keep, :][:, to_keep]\<close> and
  \<^verbatim>\<open>[self.hic.cut_intervals[x] for x in to_keep]\<close>; an index outside the matrix or the
  list raises \<^verbatim>\<open>IndexError\<close>.
\<close>

definition submatrix :: "rat list list \<Rightarrow> nat list \<Rightarrow> error + rat list list" where
  "submatrix m to_keep =
     (if list_all (\<lambda>i. i < length m) to_keep
      then (let rows = map (\<lambda>i. m ! i) to_keep in
            if list_all (\<lambda>row. list_all (\<lambda>j. j < length row) to_keep) rows
            then Inr (map (\<lambda>row. map (\<lambda>j. row ! j) to_keep) rows)
            else Inl IndexError)
      else Inl IndexError)"

definition select_intervals :: "interval list \<Rightarrow> nat list \<Rightarrow> error + interval list" where
  "select_intervals ivs to_keep =
     (if list_all (\<lambda>x. x < length ivs) to_keep
      then Inr (map (\<lambda>x. ivs ! x) to_keep) else Inl IndexError)"

definition update_matrix :: "hiCMatrix \<Rightarrow> rat list list \<Rightarrow> interval list \<Rightarrow> hiCMatrix" where
  \<comment> \<open>The external matrix provider's \<^verbatim>\<open>update_matrix\<close>: it replaces the matrix and the
      bin list of the object.\<close>
  "update_matrix h new_matrix new_cut_intervals =
     h\<lparr>matrix := new_matrix, cut_intervals := new_cut_intervals\<rparr>"

definition setMatrix :: "rat list list \<Rightarrow> interval list \<Rightarrow> hiCMatrix" where
  \<comment> \<open>\<^verbatim>\<open>HiCMatrix.hiCMatrix()\<close> followed by the external \<^verbatim>\<open>setMatrix\<close>: a new matrix
      object with the given matrix and bin list.\<close>
  "setMatrix new_matrix new_cut_intervals =
     \<lparr>matrix = new_matrix, cut_intervals = new_cut_intervals\<rparr>"

definition remove_bins_by_size :: "scaffolds \<Rightarrow> int \<Rightarrow> error + scaffolds" where
  "remove_bins_by_size S min_length =
     (case to_keep_loop (contig_G S) min_length (get_all_paths S) [] of
        Inl e \<Rightarrow> Inl e
      | Inr to_keep \<Rightarrow>
          if length to_keep \<noteq> 0 then
            (case submatrix (matrix (hic S)) to_keep of
               Inl e \<Rightarrow> Inl e
             | Inr new_matrix \<Rightarrow>
                (case select_intervals (cut_intervals (hic S)) to_keep of
                   Inl e \<Rightarrow> Inl e
                 | Inr new_cut_intervals \<Rightarrow>
                     Inr (init_path_graph
                            \<lparr>hic = update_matrix (hic S) new_matrix new_cut_intervals,
                             contig_G = PathGraph_new\<rparr>)))
          else Inr S)"

fun paths_length_loop :: "PathGraph \<Rightarrow> nat list list \<Rightarrow> error + int list" where
  "paths_length_loop g [] = Inr []"
| "paths_length_loop g (path' # rest) =
     (case node_lengths g path' of
        Inl e \<Rightarrow> Inl e
      | Inr ls \<Rightarrow>
          (case paths_length_loop g rest of
             Inl e \<Rightarrow> Inl e
           | Inr r \<Rightarrow> Inr (sum_list ls # r)))"

definition get_paths_length :: "scaffolds \<Rightarrow> error + int list" where
  "get_paths_length S = paths_length_loop (contig_G S) (get_all_paths S)"

text \<open>
  \<^verbatim>\<open>np.fromiter(self.get_paths_length(), int)\<close> fills an array of 64-bit signed integers
  (the model takes every path length to fit it), and \<^verbatim>\<open>np.cumsum\<close> adds in that type:
  a sum outside \<open>-2^63 ..< 2^63\<close> wraps around.
\<close>

definition wrap_int64 :: "int \<Rightarrow> int" where
  "wrap_int64 x = (x + 2 ^ 63) mod 2 ^ 64 - 2 ^ 63"

fun cumsum_from :: "int \<Rightarrow> int list \<Rightarrow> int list" where
  "cumsum_from acc [] = []"
| "cumsum_from acc (x # xs) = wrap_int64 (acc + x) # cumsum_from (wrap_int64 (acc + x)) xs"

definition cumsum :: "int list \<Rightarrow> int list" where
  \<comment> \<open>\<^verbatim>\<open>np.cumsum\<close> on an int64 array\<close>
  "cumsum xs = cumsum_from 0 xs"

text \<open>
  The conversion of a 64-bit integer to a float (\<^verbatim>\<open>float(cumsum[-1])\<close>, and the
  comparison of an int64 with a float): the nearest double, ties to the even mantissa.
  An integer of at most 53 bits is a double; a longer one is rounded to 53 bits.
\<close>

function bit_length :: "int \<Rightarrow> nat" where
  "bit_length n = (if n \<le> 0 then 0 else Suc (bit_length (n div 2)))"
  by pat_completeness auto
termination
  by (relation "measure nat") auto

declare bit_length.simps [simp del]

definition float_of_int64 :: "int \<Rightarrow> rat" where
  "float_of_int64 x =
     (let a = \<bar>x\<bar>;
          n = bit_length a
      in if n \<le> 53 then of_int x
         else
           (let s = n - 53;
                q = a div 2 ^ s;
                r = a mod 2 ^ s;
                half = 2 ^ (s - 1);
                q' = (if r > half \<or> (r = half \<and> odd q) then q + 1 else q)
            in of_int (sgn x * (q' * 2 ^ s))))"

text \<open>
  The loop \<^verbatim>\<open>for i in range(len(length)): if cumsum[i] >= half_length: break\<close>. The last
  argument is the value of \<open>i\<close> so far: the loop leaves \<open>i\<close> at the first index that
  breaks, or at the last index when none does. \<open>half_length\<close> is a float, and the int64
  \<^verbatim>\<open>cumsum[i]\<close> is compared with it as a float.
\<close>

fun N50_loop :: "nat list \<Rightarrow> int list \<Rightarrow> rat \<Rightarrow> nat \<Rightarrow> nat" where
  "N50_loop [] cs half_length i = i"
| "N50_loop (j # js) cs half_length i =
     (if float_of_int64 (cs ! j) \<ge> half_length then j else N50_loop js cs half_length j)"

text \<open>
  \<^verbatim>\<open>compute_N50(min_length)\<close>. \<^verbatim>\<open>half_length = float(cumsum[-1]) / 2\<close>; halving a double
  is exact.
\<close>

definition compute_N50 :: "scaffolds \<Rightarrow> int \<Rightarrow> error + int" where
  "compute_N50 S min_length =
     (case get_paths_length S of
        Inl e \<Rightarrow> Inl e
      | Inr ls \<Rightarrow>
         (let length0 = sort ls in
          if length length0 = 0 then Inl HiCAssemblerException
          else
            (let length1 = filter (\<lambda>l. l > min_length) length0 in
             if length length1 = 0 then Inl HiCAssemblerException
             else
               (let cs = cumsum length1;
                    half_length = float_of_int64 (last cs) / 2;
                    i = N50_loop [0..<length length1] cs half_length 0
                in Inr (length1 ! i)))))"

section \<open>Coarsening: \<^verbatim>\<open>merge_to_size\<close>\<close>

text \<open>
  The first loop of \<^verbatim>\<open>merge_to_size\<close>: \<^verbatim>\<open>get_flanks(path, target_length, 100)\<close> for every
  enumerated path, the results concatenated into \<^verbatim>\<open>paths_flatten\<close>. (The list
  \<^verbatim>\<open>merged_paths_id_map\<close> that the loop also fills is never read.)
\<close>

fun paths_flatten_loop :: "scaffolds \<Rightarrow> int \<Rightarrow> nat list list \<Rightarrow> error + nat list list" where
  "paths_flatten_loop S target_length [] = Inr []"
| "paths_flatten_loop S target_length (path' # rest) =
     (case get_flanks S path' target_length 100 0 of
        Inl e \<Rightarrow> Inl e
      | Inr flanks_of_path \<Rightarrow>
          (case paths_flatten_loop S target_length rest of
             Inl e \<Rightarrow> Inl e
           | Inr r \<Rightarrow> Inr (flanks_of_path @ r)))"

text \<open>
  The second loop synthesizes one interval per sub-path. \<^verbatim>\<open>sub_path[0]\<close> of an empty
  list raises \<^verbatim>\<open>IndexError\<close>, a node without attributes \<^verbatim>\<open>KeyError\<close>, and
  \<^verbatim>\<open>assert start < end\<close> raises \<^verbatim>\<open>AssertionError\<close>. Before the assertion,
  \<^verbatim>\<open>if end < start: import ipdb; ipdb.set_trace()\<close> hands control to the debugger.
\<close>

fun new_cut_intervals_loop :: "PathGraph \<Rightarrow> nat list list \<Rightarrow> error + interval list" where
  "new_cut_intervals_loop g [] = Inr []"
| "new_cut_intervals_loop g (sub_path # rest) =
     (if sub_path = [] then Inl IndexError
      else
        (case map_of (node g) (sub_path ! 0) of
           None \<Rightarrow> Inl KeyError
         | Some first_node \<Rightarrow>
            (case map_of (node g) (last sub_path) of
               None \<Rightarrow> Inl KeyError
             | Some last_node \<Rightarrow>
                (let name = n_name first_node;
                     start = n_start first_node;
                     end' = n_end last_node
                 in
                 if end' < start then Inl IpdbSetTrace
                 else if \<not> start < end' then Inl AssertionError
                 else
                   (let coverage = (n_coverage first_node + of_int (n_end last_node)) / 2 in
                    case new_cut_intervals_loop g rest of
                      Inl e \<Rightarrow> Inl e
                    | Inr r \<Rightarrow> Inr ((name, start, end', coverage) # r))))))"

datatype merge_return = Return_None_None | Return_hic hiCMatrix

text \<open>
  \<^verbatim>\<open>merge_to_size(target_length)\<close>. The external matrix reduction and iterative
  correction are parameters. When \<^verbatim>\<open>paths_flatten\<close> is empty the source evaluates
  \<^verbatim>\<open>inspect.stack()\<close> to format its warning, and the module never imports \<^verbatim>\<open>inspect\<close>:
  the branch raises \<^verbatim>\<open>NameError\<close> before its \<^verbatim>\<open>return None\<close>. The last statement,
  \<^verbatim>\<open>self.hic.save(...)\<close>, writes the new matrix to a file and is left out, as is the
  logging decorator.
\<close>

definition merge_to_size ::
  "(rat list list \<Rightarrow> nat list list \<Rightarrow> rat list list) \<Rightarrow> (rat list list \<Rightarrow> rat list list)
     \<Rightarrow> scaffolds \<Rightarrow> int \<Rightarrow> error + merge_return \<times> scaffolds" where
  "merge_to_size reduce_matrix iterativeCorrection S target_length =
     (case paths_flatten_loop S target_length (get_all_paths S) of
        Inl e \<Rightarrow> Inl e
      | Inr paths_flatten \<Rightarrow>
          if length paths_flatten = 0 then Inl NameError
          else
            (case new_cut_intervals_loop (contig_G S) paths_flatten of
               Inl e \<Rightarrow> Inl e
             | Inr new_cut_intervals \<Rightarrow>
                 (let reduce_paths = paths_flatten in
                  if length reduce_paths < 2 then Inr (Return_None_None, S)
                  else
                    (let reduced_matrix = reduce_matrix (matrix (hic S)) reduce_paths;
                         corrected_matrix = iterativeCorrection reduced_matrix;
                         hic' = setMatrix corrected_matrix new_cut_intervals;
                         S' = init_path_graph \<lparr>hic = hic', contig_G = PathGraph_new\<rparr>
                     in Inr (Return_hic (hic S'), S')))))"

section \<open>Edge validity\<close>

definition has_edge :: "scaffolds \<Rightarrow> nat \<Rightarrow> nat \<Rightarrow> bool" where
  "has_edge S u v = (graph_has_edge (contig_G S) u v \<or> graph_has_edge (contig_G S) v u)"

text \<open>
  \<^verbatim>\<open>check_edge(u, v)\<close> raises or returns \<^verbatim>\<open>None\<close>; it assigns to nothing. The model
  returns the state after the call, so that a normal return shows the graph it leaves.
\<close>

definition check_edge :: "scaffolds \<Rightarrow> nat \<Rightarrow> nat \<Rightarrow> error + scaffolds" where
  "check_edge S u v =
     (if has_edge S u v then Inl HiCAssemblerException
      else if degree (contig_G S) u = 2 then Inl HiCAssemblerException
      else if degree (contig_G S) v = 2 then Inl HiCAssemblerException
      else if degree (contig_G S) u = 1 \<and> degree (contig_G S) v = 1
              \<and> v \<in> set (getitem (contig_G S) u)
           then Inl HiCAssemblerException
      else Inr S)"

definition add_edge :: "PathGraph \<Rightarrow> nat \<Rightarrow> nat \<Rightarrow> error + PathGraph" where
  \<comment> \<open>Modelled from the spec: \<^verbatim>\<open>PathGraph.add_edge(u, v)\<close> fails when the edge exists in
      either direction, when an endpoint has degree 2, or when both endpoints have degree 1
      and lie on the same path (the edge would close a cycle); otherwise the two chains
      are joined at u and v.\<close>
  "add_edge g u v =
     (if graph_has_edge g u v \<or> graph_has_edge g v u
         \<or> degree g u = 2 \<or> degree g v = 2
         \<or> (degree g u = 1 \<and> degree g v = 1 \<and> v \<in> set (getitem g u))
      then Inl PathGraphEdgeNotPossible
      else
        (let pu = getitem g u;
             pv = getitem g v;
             pu' = (if pu = [] \<or> last pu = u then pu else rev pu);
             pv' = (if pv = [] \<or> hd pv = v then pv else rev pv)
         in Inr (g\<lparr>path := filter (\<lambda>q. q \<noteq> pu \<and> q \<noteq> pv) (path g) @ [pu' @ pv']\<rparr>)))"

section \<open>Nearest-neighbour joining\<close>

text \<open>
  The thresholded strict upper triangle in coordinate format: the stored entries
  greater than \<^verbatim>\<open>confidence_score\<close> (and not zero), row by row.
\<close>

definition triu_entries :: "rat list list \<Rightarrow> rat \<Rightarrow> (nat \<times> nat \<times> rat) list" where
  "triu_entries m confidence_score =
     concat (map (\<lambda>i. concat (map (\<lambda>j.
         if i < j \<and> m ! i ! j > confidence_score \<and> m ! i ! j \<noteq> 0 then [(i, j, m ! i ! j)] else [])
       [0..<length (m ! i)])) [0..<length m])"

fun classify_paths :: "nat list list \<Rightarrow> nat list \<Rightarrow> nat list \<Rightarrow> error + nat list \<times> nat list" where
  "classify_paths [] flanks singletons = Inr (flanks, singletons)"
| "classify_paths (path' # rest) flanks singletons =
     (if length path' = 1 then classify_paths rest flanks (singletons @ path')
      else if path' = [] then Inl IndexError
      else classify_paths rest (flanks @ [path' ! 0, last path']) singletons)"

text \<open>
  The auxiliary \<^verbatim>\<open>networkx.Graph\<close>: an adjacency dictionary. The model keeps nodes and
  neighbours in the order in which they were added; for the small integer keys used
  below the Python 2 dictionaries yield them in the same (ascending) order.
\<close>

type_synonym nx_graph = "(nat \<times> nat list) list"

definition nx_add_node :: "nx_graph \<Rightarrow> nat \<Rightarrow> nx_graph" where
  "nx_add_node G u = (if u \<in> fst ` set G then G else G @ [(u, [])])"

definition nx_add_neighbor :: "nx_graph \<Rightarrow> nat \<Rightarrow> nat \<Rightarrow> nx_graph" where
  "nx_add_neighbor G u v =
     map (\<lambda>(k, ns). if k = u \<and> v \<notin> set ns then (k, ns @ [v]) else (k, ns)) G"

definition nx_add_edge :: "nx_graph \<Rightarrow> nat \<Rightarrow> nat \<Rightarrow> nx_graph" where
  "nx_add_edge G u v =
     nx_add_neighbor (nx_add_neighbor (nx_add_node (nx_add_node G u) v) u v) v u"

definition nx_keys :: "nx_graph \<Rightarrow> nat \<Rightarrow> nat list" where
  \<comment> \<open>\<^verbatim>\<open>G[node].keys()\<close>; its length is \<^verbatim>\<open>G.degree(node)\<close> (the graph has no self-loop).\<close>
  "nx_keys G n = (case map_of G n of Some ns \<Rightarrow> ns | None \<Rightarrow> [])"

fun build_aux_graph :: "(nat \<times> nat \<times> rat) list \<Rightarrow> nat list \<Rightarrow> nx_graph \<Rightarrow> nx_graph" where
  "build_aux_graph [] nodes' G = G"
| "build_aux_graph ((row_id, col_id, val) # rest) nodes' G =
     build_aux_graph rest nodes'
       (if row_id \<in> set nodes' \<and> col_id \<in> set nodes' then nx_add_edge G row_id col_id else G)"

text \<open>
  The joining loop \<^verbatim>\<open>for node in G\<close>. In the first branch \<^verbatim>\<open>add_edge\<close> is inside
  \<^verbatim>\<open>try: ... except: pass\<close>; in the second branch the two calls are not.
\<close>

fun join_loop ::
  "nx_graph \<Rightarrow> nat list \<Rightarrow> nat list \<Rightarrow> nat list \<Rightarrow> PathGraph \<Rightarrow> nat set \<Rightarrow> error + PathGraph" where
  "join_loop G flanks singletons [] g seen = Inr g"
| "join_loop G flanks singletons (n # rest) g seen =
     (let ks = nx_keys G n in
      if length ks = 1 \<and> n \<in> set flanks \<and> n \<notin> seen then
        (let g1 = (case add_edge g n (ks ! 0) of Inl e \<Rightarrow> g | Inr g' \<Rightarrow> g')
         in join_loop G flanks singletons rest g1 (seen \<union> {n, ks ! 0}))
      else if length ks = 2 \<and> n \<in> set singletons \<and> n \<notin> seen then
        (case add_edge g n (ks ! 0) of
           Inl e \<Rightarrow> Inl e
         | Inr g1 \<Rightarrow>
            (case add_edge g1 n (ks ! 1) of
               Inl e \<Rightarrow> Inl e
             | Inr g2 \<Rightarrow>
                 join_loop G flanks singletons rest g2 (seen \<union> {n, ks ! 0, ks ! 1})))
      else join_loop G flanks singletons rest g seen)"

text \<open>
  \<^verbatim>\<open>get_nearest_neighbors(confidence_score)\<close>. The method returns nothing; the model
  returns the state it leaves. Its last statement, \<^verbatim>\<open>import ipdb;ipdb.set_trace()\<close>,
  comes after the loop, when every edge has been added, and is left out: the result is
  the state that the method has reached at that statement.
\<close>

definition get_nearest_neighbors :: "scaffolds \<Rightarrow> rat \<Rightarrow> error + scaffolds" where
  "get_nearest_neighbors S confidence_score =
     (let entries = triu_entries (matrix (hic S)) confidence_score in
      case classify_paths (get_all_paths S) [] [] of
        Inl e \<Rightarrow> Inl e
      | Inr (flanks, singletons) \<Rightarrow>
         (let nodes' = flanks @ singletons;
              G = build_aux_graph entries nodes' []
          in case join_loop G flanks singletons (map fst G) (contig_G S) {} of
               Inl e \<Rightarrow> Inl e
             | Inr g \<Rightarrow> Inr (S\<lparr>contig_G := g\<rparr>)))"

section \<open>Example states and reference definitions\<close>

definition get_test_matrix :: "interval list \<Rightarrow> hiCMatrix" where
  \<comment> \<open>The helper \<^verbatim>\<open>get_test_matrix(cut_intervals)\<close> of the source file, for a non-empty
      list: the symmetric 6x6 test matrix cut to the number of bins.\<close>
  "get_test_matrix ivs =
     setMatrix
       (map (take (length ivs)) (take (length ivs)
          [[2, 8, 5, 3, 0, 8], [8, 8, 15, 5, 1, 7], [5, 15, 0, 7, 2, 8],
           [3, 5, 7, 0, 1, 5], [0, 1, 2, 1, 0, 6], [8, 7, 8, 5, 6, 0]]))
       ivs"

definition N50_doctest :: scaffolds where
  \<comment> \<open>The state of the doctest of \<^verbatim>\<open>compute_N50\<close>.\<close>
  "N50_doctest = Scaffolds (get_test_matrix
     [(''c-0'', 0, 10, 1), (''c-0'', 10, 20, 1), (''c-2'', 0, 30, 1),
      (''c-3'', 0, 10, 1), (''c-2'', 20, 30, 1), (''c-3'', 0, 10, 1)])"

definition single_bin :: scaffolds where
  \<comment> \<open>One bin of 30 bp.\<close>
  "single_bin = Scaffolds (get_test_matrix [(''c-0'', 0, 30, 1)])"

definition no_bins :: scaffolds where
  \<comment> \<open>A matrix without bins.\<close>
  "no_bins = Scaffolds (setMatrix [] [])"

definition six_bins :: scaffolds where
  \<comment> \<open>The state of the first doctest of \<^verbatim>\<open>get_flanks\<close>: one path of six bins of 10 bp.\<close>
  "six_bins = Scaffolds (get_test_matrix
     [(''c-0'', 0, 10, 1), (''c-0'', 10, 20, 1), (''c-0'', 20, 30, 1),
      (''c-0'', 30, 40, 1), (''c-0'', 40, 50, 1), (''c-0'', 50, 60, 1)])"


definition uneven_bins :: scaffolds where
  \<comment> \<open>One path of five bins of 30, 10, 10, 10 and 10 bp.\<close>
  "uneven_bins = Scaffolds (get_test_matrix
     [(''c-0'', 0, 30, 1), (''c-0'', 30, 40, 1), (''c-0'', 40, 50, 1),
      (''c-0'', 50, 60, 1), (''c-0'', 60, 70, 1)])"

definition four_singletons :: scaffolds where
  \<comment> \<open>Four bins with four labels; the contacts 0-1, 0-2, 1-3 and 2-3 are 5, the others 0.\<close>
  "four_singletons = Scaffolds (setMatrix
     [[0, 5, 5, 0], [5, 0, 0, 5], [5, 0, 0, 5], [0, 5, 5, 0]]
     [(''c-0'', 0, 10, 1), (''c-1'', 0, 10, 1), (''c-2'', 0, 10, 1), (''c-3'', 0, 10, 1)])"

text \<open>
  The scan that the docstring of \<^verbatim>\<open>_get_path_flank\<close> and the specification describe:
  the sum runs over the lengths of the bins collected so far. It differs from
  \<open>get_path_flank\<close> in the summand only.
\<close>

fun get_path_flank_spec ::
  "(nat \<Rightarrow> int) \<Rightarrow> rat \<Rightarrow> rat \<Rightarrow> nat list \<Rightarrow> nat list \<Rightarrow> nat list" where
  "get_path_flank_spec path_length tolerance_min tolerance_max flank [] = flank"
| "get_path_flank_spec path_length tolerance_min tolerance_max flank (n # rest) =
     (let flank_sum = of_int (sum_list (map path_length flank)) in
      if flank_sum > tolerance_max then flank
      else if tolerance_min \<le> flank_sum \<and> flank_sum \<le> tolerance_max then flank
      else get_path_flank_spec path_length tolerance_min tolerance_max (flank @ [n]) rest)"


definition six_bins_merged :: scaffolds where
  \<comment> \<open>The three bins of the doctest of \<^verbatim>\<open>merge_to_size\<close>, on the matrix left as it is.\<close>
  "six_bins_merged = Scaffolds (setMatrix (matrix (hic six_bins))
     [(''c-0'', 0, 20, 21 / 2), (''c-0'', 20, 40, 41 / 2), (''c-0'', 40, 60, 61 / 2)])"




definition remove_doctest :: scaffolds where
  \<comment> \<open>The state of the doctests of \<^verbatim>\<open>remove_bins_by_size\<close>: paths of 30, 20 and 10 bp.\<close>
  "remove_doctest = Scaffolds (get_test_matrix
     [(''c-0'', 0, 10, 1), (''c-0'', 10, 20, 1), (''c-0'', 20, 30, 1),
      (''c-2'', 0, 10, 1), (''c-2'', 20, 30, 1), (''c-3'', 0, 10, 1)])"

definition remove_doctest_kept :: scaffolds where
  \<comment> \<open>The state that the second doctest of \<^verbatim>\<open>remove_bins_by_size\<close> shows after the call.\<close>
  "remove_doctest_kept = Scaffolds (setMatrix [[2, 8, 5], [8, 8, 15], [5, 15, 0]]
     [(''c-0'', 0, 10, 1), (''c-0'', 10, 20, 1), (''c-0'', 20, 30, 1)])"

text \<open>
  The attributes that the bin list gives a node, and the invariant of claim C10: the
  nodes of the path graph are the indices of the bin list, in order, each with the
  attributes of its bin.
\<close>

definition interval_attr :: "interval \<Rightarrow> node_attr" where
  "interval_attr iv =
     (case iv of (label, start, end', coverage) \<Rightarrow>
        \<lparr>n_name = label, n_start = start, n_end = end', n_coverage = coverage,
         n_length = end' - start\<rparr>)"

definition nodes_are_bins :: "scaffolds \<Rightarrow> bool" where
  "nodes_are_bins S =
     (nodes (contig_G S) = [0..<length (cut_intervals (hic S))]
      \<and> list_all (\<lambda>i. map_of (node (contig_G S)) i = Some (interval_attr (cut_intervals (hic S) ! i)))
           [0..<length (cut_intervals (hic S))])"

definition wrapping_paths :: scaffolds where
  \<comment> \<open>Three single-bin paths of 10, 2^62 and 2^62 bp: their sum is over 2^63.\<close>
  "wrapping_paths = Scaffolds (setMatrix [[1, 1, 1], [1, 1, 1], [1, 1, 1]]
     [(''c-0'', 0, 10, 1), (''c-1'', 0, 4611686018427387904, 1),
      (''c-2'', 0, 4611686018427387904, 1)])"

definition rounding_paths :: scaffolds where
  \<comment> \<open>Two single-bin paths of 2^60 and 2^60 + 1 bp: their sum is not a double.\<close>
  "rounding_paths = Scaffolds (setMatrix [[1, 1], [1, 1]]
     [(''c-0'', 0, 1152921504606846976, 1), (''c-1'', 0, 1152921504606846977, 1)])"


section \<open>N50\<close>

lemma bit_length_le: "a < 2 ^ k \<Longrightarrow> bit_length a \<le> k"
proof (induction k arbitrary: a)
  case 0
  then show ?case by (simp add: bit_length.simps)
next
  case (Suc k)
  show ?case
  proof (cases "a \<le> 0")
    case True
    then show ?thesis by (simp add: bit_length.simps)
  next
    case False
    from Suc.prems have "a div 2 < 2 ^ k" by simp
    from Suc.IH [OF this] False show ?thesis by (subst bit_length.simps) simp
  qed
qed

lemma float_of_int64_exact: "0 \<le> x \<Longrightarrow> x < 2 ^ 53 \<Longrightarrow> float_of_int64 x = of_int x"
  using bit_length_le [of "\<bar>x\<bar>" 53] by (simp add: float_of_int64_def Let_def)

lemma wrap_int64_id: "0 \<le> x \<Longrightarrow> x < 2 ^ 63 \<Longrightarrow> wrap_int64 x = x"
  by (simp add: wrap_int64_def)

lemma length_cumsum_from: "length (cumsum_from a xs) = length xs"
  by (induction xs arbitrary: a) simp_all

lemma nth_cumsum_from:
  assumes "0 \<le> a" and "\<forall>x \<in> set xs. 0 \<le> x" and "a + sum_list xs < 2 ^ 63"
    and "i < length xs"
  shows "cumsum_from a xs ! i = a + sum_list (take (Suc i) xs)"
  using assms
proof (induction xs arbitrary: a i)
  case Nil
  then show ?case by simp
next
  case (Cons x xs)
  have x: "0 \<le> x" using Cons.prems(2) by simp
  have s: "0 \<le> sum_list xs" using Cons.prems(2) by (simp add: sum_list_nonneg)
  have w: "wrap_int64 (a + x) = a + x"
    using Cons.prems(1,3) x s by (intro wrap_int64_id) simp_all
  show ?case
  proof (cases i)
    case 0
    then show ?thesis by (simp add: w)
  next
    case (Suc k)
    with Cons.prems have k: "k < length xs" by simp
    have "cumsum_from (a + x) xs ! k = (a + x) + sum_list (take (Suc k) xs)"
      using Cons.prems(1,2,3) x k by (intro Cons.IH) simp_all
    then show ?thesis using Suc by (simp add: w)
  qed
qed

lemma last_cumsum_from:
  assumes "0 \<le> a" and "\<forall>x \<in> set xs. 0 \<le> x" and "a + sum_list xs < 2 ^ 63" and "xs \<noteq> []"
  shows "last (cumsum_from a xs) = a + sum_list xs"
proof -
  from assms(4) have len: "length xs - 1 < length xs" by (cases xs) simp_all
  have "cumsum_from a xs \<noteq> []" using assms(4) by (cases xs) simp_all
  then have "last (cumsum_from a xs) = cumsum_from a xs ! (length xs - 1)"
    by (simp add: last_conv_nth length_cumsum_from)
  also have "\<dots> = a + sum_list (take (Suc (length xs - 1)) xs)"
    by (rule nth_cumsum_from [OF assms(1,2,3) len])
  also have "Suc (length xs - 1) = length xs" using assms(4) by (cases xs) simp_all
  finally show ?thesis by simp
qed

lemma N50_loop_find:
  "find (\<lambda>j. half_length \<le> float_of_int64 (cs ! j)) js = Some r
     \<Longrightarrow> N50_loop js cs half_length i = r"
  by (induction js arbitrary: i) (auto split: if_splits)

lemma N50_loop_upt_first:
  assumes "r < n" and "half_length \<le> float_of_int64 (cs ! r)"
    and "\<forall>j<r. \<not> half_length \<le> float_of_int64 (cs ! j)"
  shows "N50_loop [0..<n] cs half_length i = r"
proof (rule N50_loop_find)
  show "find (\<lambda>j. half_length \<le> float_of_int64 (cs ! j)) [0..<n] = Some r"
    unfolding find_Some_iff using assms by (intro exI [of _ r]) simp
qed

lemma compute_N50_unfold:
  assumes "get_paths_length S = Inr ls"
    and "filter (\<lambda>l. min_length < l) (sort ls) \<noteq> []"
  shows "compute_N50 S min_length =
     Inr (filter (\<lambda>l. min_length < l) (sort ls) !
           N50_loop [0..<length (filter (\<lambda>l. min_length < l) (sort ls))]
             (cumsum (filter (\<lambda>l. min_length < l) (sort ls)))
             (float_of_int64 (last (cumsum (filter (\<lambda>l. min_length < l) (sort ls)))) / 2) 0)"
proof -
  from assms(2) have "sort ls \<noteq> []" by auto
  with assms show ?thesis by (simp add: compute_N50_def Let_def)
qed

lemma get_paths_length_N50_doctest: "get_paths_length N50_doctest = Inr [20, 30, 10, 10, 10]"
  by code_simp


lemma N50_example_index:
  "N50_loop [0..<length [10, 10, 10, 20, 30 :: int]] (cumsum [10, 10, 10, 20, 30])
     (float_of_int64 (last (cumsum [10, 10, 10, 20, 30])) / 2) 0 = 3"
  by code_simp

text \<open>
  Claim C4, as stated: \<^verbatim>\<open>compute_N50\<close> returns the length at the first index whose
  cumulative sum reaches half of the total. The cumulative sums are 64-bit integers and
  the half is a float. With paths of 10, 2^62 and 2^62 bp the last sum wraps to a
  negative number and the call returns 10, whose cumulative sum is far below half of
  the total; with paths of 2^60 and 2^60 + 1 bp the total is rounded to 2^61 and the
  call returns 2^60, although twice 2^60 is less than the total. In both states the
  first index that reaches half of the total is index 1, which holds another length.
\<close>

theorem compute_N50_large_sums_counterexample:
  "get_paths_length wrapping_paths = Inr [10, 4611686018427387904, 4611686018427387904]
   \<and> compute_N50 wrapping_paths 2 = Inr 10
   \<and> 2 * sum_list (take (Suc 0) [10, 4611686018427387904, 4611686018427387904 :: int])
        < sum_list [10, 4611686018427387904, 4611686018427387904]
   \<and> sum_list [10, 4611686018427387904, 4611686018427387904 :: int]
        \<le> 2 * sum_list (take (Suc 1) [10, 4611686018427387904, 4611686018427387904])
   \<and> [10, 4611686018427387904, 4611686018427387904] ! 1 \<noteq> (10 :: int)
   \<and> get_paths_length rounding_paths = Inr [1152921504606846976, 1152921504606846977]
   \<and> compute_N50 rounding_paths 2 = Inr 1152921504606846976
   \<and> 2 * sum_list (take (Suc 0) [1152921504606846976, 1152921504606846977 :: int])
        < sum_list [1152921504606846976, 1152921504606846977]
   \<and> sum_list [1152921504606846976, 1152921504606846977 :: int]
        \<le> 2 * sum_list (take (Suc 1) [1152921504606846976, 1152921504606846977])
   \<and> [1152921504606846976, 1152921504606846977] ! 1 \<noteq> (1152921504606846976 :: int)"
  by code_simp

text \<open>
  Claim C4, amended. When the lengths that remain after the filter are not negative and
  their total is below 2^53 (no sum wraps, every sum is a double), \<^verbatim>\<open>compute_N50\<close>
  returns the length at the first index of the ascending, filtered lengths whose
  cumulative sum reaches half of the total: the index \<open>i\<close> below has twice its cumulative
  sum at least the total, and no earlier index has. For every state whose path lengths
  are 20, 30, 10, 10, 10 and \<open>min_length = 2\<close> the result is 20.
\<close>

theorem compute_N50_first_half_index:
  assumes "get_paths_length S = Inr ls"
    and "fl = filter (\<lambda>l. min_length < l) (sort ls)"
    and "fl \<noteq> []" and "\<forall>l \<in> set fl. 0 \<le> l" and "sum_list fl < 2 ^ 53"
  shows "(\<exists>i<length fl. compute_N50 S min_length = Inr (fl ! i)
            \<and> sum_list fl \<le> 2 * sum_list (take (Suc i) fl)
            \<and> (\<forall>j<i. 2 * sum_list (take (Suc j) fl) < sum_list fl))
         \<and> (\<forall>S'. get_paths_length S' = Inr [20, 30, 10, 10, 10] \<longrightarrow> compute_N50 S' 2 = Inr 20)"
proof
  let ?P = "\<lambda>j. sum_list fl \<le> 2 * sum_list (take (Suc j) fl)"
  define n where "n = length fl"
  have n: "0 < n" using assms(3) by (simp add: n_def)
  have tot: "0 \<le> sum_list fl" using assms(4) by (simp add: sum_list_nonneg)
  have "?P (n - 1)" using n tot by (simp add: n_def)
  then have ex: "\<exists>j. ?P j" ..
  define r where "r = (LEAST j. ?P j)"
  have Pr: "?P r" unfolding r_def by (rule LeastI_ex [OF ex])
  have least: "\<And>j. j < r \<Longrightarrow> \<not> ?P j" unfolding r_def by (rule not_less_Least)
  have "r \<le> n - 1" unfolding r_def by (rule Least_le) fact
  with n have rn: "r < n" by simp
  have b63: "0 + sum_list fl < 2 ^ 63" using assms(5) by simp
  have last: "last (cumsum fl) = sum_list fl"
    using last_cumsum_from [OF _ assms(4) b63 assms(3)] by (simp add: cumsum_def)
  have half: "float_of_int64 (last (cumsum fl)) / 2 = (of_int (sum_list fl) / 2 :: rat)"
    unfolding last using float_of_int64_exact [OF tot assms(5)] by simp
  have cs: "cumsum fl ! j = sum_list (take (Suc j) fl)" if "j < n" for j
    using nth_cumsum_from [OF _ assms(4) b63, of j] that by (simp add: cumsum_def n_def)
  have part: "0 \<le> sum_list (take (Suc j) fl) \<and> sum_list (take (Suc j) fl) < 2 ^ 53" for j
  proof -
    have "\<forall>l \<in> set (take (Suc j) fl). 0 \<le> l" "\<forall>l \<in> set (drop (Suc j) fl). 0 \<le> l"
      using assms(4) by (auto dest: in_set_takeD in_set_dropD)
    then have "0 \<le> sum_list (take (Suc j) fl)" "0 \<le> sum_list (drop (Suc j) fl)"
      by (simp_all add: sum_list_nonneg)
    moreover have "sum_list fl = sum_list (take (Suc j) fl) + sum_list (drop (Suc j) fl)"
      by (metis append_take_drop_id sum_list_append)
    ultimately show ?thesis using assms(5) by simp
  qed
  have fcs: "float_of_int64 (cumsum fl ! j) = of_int (sum_list (take (Suc j) fl))" if "j < n" for j
    unfolding cs [OF that] using part [of j] by (simp add: float_of_int64_exact)
  have conv: "((of_int (sum_list fl) / 2 :: rat) \<le> float_of_int64 (cumsum fl ! j)) = ?P j"
    if "j < n" for j
  proof -
    have "((of_int (sum_list fl) / 2 :: rat) \<le> of_int (sum_list (take (Suc j) fl)))
        = ((of_int (sum_list fl) :: rat) \<le> of_int (2 * sum_list (take (Suc j) fl)))"
      by (simp add: field_simps)
    also have "\<dots> = ?P j" by (simp only: of_int_le_iff)
    finally show ?thesis using fcs [OF that] by simp
  qed
  have loop: "N50_loop [0..<n] (cumsum fl) (of_int (sum_list fl) / 2) 0 = r"
  proof (rule N50_loop_upt_first [OF rn])
    show "of_int (sum_list fl) / 2 \<le> float_of_int64 (cumsum fl ! r)"
      using conv [OF rn] Pr by simp
    show "\<forall>j<r. \<not> of_int (sum_list fl) / 2 \<le> float_of_int64 (cumsum fl ! j)"
    proof (intro allI impI)
      fix j assume "j < r"
      then have "j < n" using rn by simp
      from conv [OF this] least [OF \<open>j < r\<close>]
      show "\<not> of_int (sum_list fl) / 2 \<le> float_of_int64 (cumsum fl ! j)" by simp
    qed
  qed
  have "compute_N50 S min_length = Inr (fl ! r)"
    using compute_N50_unfold [OF assms(1), of min_length] assms(2,3) half loop
    by (simp add: n_def)
  with rn Pr least
  show "\<exists>i<length fl. compute_N50 S min_length = Inr (fl ! i)
            \<and> sum_list fl \<le> 2 * sum_list (take (Suc i) fl)
            \<and> (\<forall>j<i. 2 * sum_list (take (Suc j) fl) < sum_list fl)"
    unfolding n_def by (intro exI [of _ r]) (auto simp: not_le)
next
  show "\<forall>S'. get_paths_length S' = Inr [20, 30, 10, 10, 10] \<longrightarrow> compute_N50 S' 2 = Inr 20"
  proof (intro allI impI)
    fix S' assume h: "get_paths_length S' = Inr [20, 30, 10, 10, 10]"
    have f: "filter (\<lambda>l. 2 < l) (sort [20, 30, 10, 10, 10 :: int]) = [10, 10, 10, 20, 30]"
      by simp
    have "filter (\<lambda>l. 2 < l) (sort [20, 30, 10, 10, 10 :: int]) \<noteq> []" unfolding f by simp
    from compute_N50_unfold [OF h this] show "compute_N50 S' 2 = Inr 20"
      unfolding f N50_example_index by simp
  qed
qed

theorem compute_N50_first_half_index_witness:
  "get_paths_length N50_doctest = Inr [20, 30, 10, 10, 10]
   \<and> compute_N50 N50_doctest 2 = Inr 20
   \<and> (\<exists>i<length [10, 10, 10, 20, 30 :: int].
         compute_N50 N50_doctest 2 = Inr ([10, 10, 10, 20, 30] ! i)
         \<and> sum_list [10, 10, 10, 20, 30]
              \<le> 2 * sum_list (take (Suc i) [10, 10, 10, 20, 30 :: int])
         \<and> (\<forall>j<i. 2 * sum_list (take (Suc j) [10, 10, 10, 20, 30 :: int])
                    < sum_list [10, 10, 10, 20, 30]))"
proof -
  have h2: "[10, 10, 10, 20, 30] = filter (\<lambda>l. 2 < l) (sort [20, 30, 10, 10, 10 :: int])"
    by simp
  have h3: "[10, 10, 10, 20, 30 :: int] \<noteq> []" by simp
  have h4: "\<forall>l \<in> set [10, 10, 10, 20, 30 :: int]. 0 \<le> l" by simp
  have h5: "sum_list [10, 10, 10, 20, 30 :: int] < 2 ^ 53" by simp
  from compute_N50_first_half_index [OF get_paths_length_N50_doctest h2 h3 h4 h5]
  show ?thesis using get_paths_length_N50_doctest by blast
qed




section \<open>Edge validity\<close>

lemma six_bins_ends:
  "degree (contig_G six_bins) 0 = 1 \<and> degree (contig_G six_bins) 5 = 1
   \<and> 5 \<in> set (getitem (contig_G six_bins) 0)"
  by code_simp

lemma six_bins_inner:
  "graph_has_edge (contig_G six_bins) 2 3 \<and> degree (contig_G six_bins) 2 = 2"
  by code_simp

lemma four_singletons_free:
  "\<not> graph_has_edge (contig_G four_singletons) 0 1
   \<and> \<not> graph_has_edge (contig_G four_singletons) 1 0
   \<and> degree (contig_G four_singletons) 0 = 0 \<and> degree (contig_G four_singletons) 1 = 0"
  by code_simp

text \<open>
  Claim C6. \<^verbatim>\<open>check_edge(u, v)\<close> raises (a \<^verbatim>\<open>HiCAssemblerException\<close>) exactly when the
  edge exists in one of the two directions, or \<open>u\<close> or \<open>v\<close> has degree 2, or both have
  degree 1 and \<open>v\<close> is on the path of \<open>u\<close>; otherwise it returns and the state is the one
  it was called in.
\<close>

theorem check_edge_raises_iff:
  "(isl (check_edge S u v) \<longleftrightarrow>
      (graph_has_edge (contig_G S) u v \<or> graph_has_edge (contig_G S) v u
       \<or> degree (contig_G S) u = 2 \<or> degree (contig_G S) v = 2
       \<or> (degree (contig_G S) u = 1 \<and> degree (contig_G S) v = 1
           \<and> v \<in> set (getitem (contig_G S) u))))
   \<and> (isl (check_edge S u v) \<longrightarrow> check_edge S u v = Inl HiCAssemblerException)
   \<and> (\<not> isl (check_edge S u v) \<longrightarrow> check_edge S u v = Inr S)"
  by (simp add: check_edge_def has_edge_def)

theorem check_edge_raises_iff_witness:
  "check_edge six_bins 0 5 = Inl HiCAssemblerException
   \<and> check_edge six_bins 2 3 = Inl HiCAssemblerException
   \<and> check_edge four_singletons 0 1 = Inr four_singletons"
proof -
  have a: "isl (check_edge six_bins 0 5)"
    using check_edge_raises_iff [of six_bins 0 5] six_bins_ends by blast
  have b: "isl (check_edge six_bins 2 3)"
    using check_edge_raises_iff [of six_bins 2 3] six_bins_inner by blast
  have c: "\<not> isl (check_edge four_singletons 0 1)"
    using check_edge_raises_iff [of four_singletons 0 1] four_singletons_free by simp
  from a b c check_edge_raises_iff [of six_bins 0 5] check_edge_raises_iff [of six_bins 2 3]
    check_edge_raises_iff [of four_singletons 0 1]
  show ?thesis by blast
qed

section \<open>Flanks\<close>

lemma get_path_flank_sum:
  "sum_list (map (\<lambda>n. path_length x) flank) = int (length flank) * path_length x"
  by (induction flank) (simp_all add: algebra_simps)

lemma get_path_flank_last_length:
  "get_path_flank path_length x tolerance_min tolerance_max flank p
     = get_path_flank_spec (\<lambda>n. path_length x) tolerance_min tolerance_max flank p"
  by (induction p arbitrary: flank) (simp_all add: Let_def)

text \<open>
  Claim C1. On the path of bins of 30, 10, 10, 10 and 10 bp with target length 20 the
  band is [15, 25]. The scan of the claim stops after bin 0 (its sum 30 is over the
  band). The code's sum is the number of bins collected times the length of the last
  bin of the path (\<open>get_path_flank_sum\<close>), so the code scans as the claim would if every
  bin had the length of the last one (\<open>get_path_flank_last_length\<close>): it takes bins 0
  and 1 (2 times 10), the left flank is [0, 1], and bin 2 is the whole interior, dropped
  as too small.
\<close>

theorem get_flanks_uneven_bins:
  "node_lengths (contig_G uneven_bins) [0, 1, 2, 3, 4] = Inr [30, 10, 10, 10, 10]
   \<and> get_flanks uneven_bins [0, 1, 2, 3, 4] 20 100 0 = Inr [[0, 1], [3, 4]]
   \<and> get_path_flank (\<lambda>x. the (map_of (zip [0, 1, 2, 3, 4] [30, 10, 10, 10, 10]) x)) 4
        (of_int 20 * (3 / 4)) (of_int 20 * (5 / 4)) [] [0, 1, 2, 3, 4] = [0, 1]
   \<and> get_path_flank_spec (\<lambda>x. the (map_of (zip [0, 1, 2, 3, 4] [30, 10, 10, 10, 10]) x))
        (of_int 20 * (3 / 4)) (of_int 20 * (5 / 4)) [] [0, 1, 2, 3, 4] = [0]"
  by code_simp






lemma left_right_flanks_nonempty:
  assumes "2 \<le> length p" and "left_right_flanks path_length tmin tmax p = (l, r)"
  shows "l \<noteq> [] \<and> r \<noteq> []"
proof -
  have h: "take (length p div 2) p \<noteq> [] \<and> drop (length p div 2) p \<noteq> []"
    using assms(1) by auto
  from assms(2) h show ?thesis
    unfolding left_right_flanks_def Let_def by (auto split: if_splits)
qed












section \<open>Coarsening\<close>






lemma hic_init_path_graph: "hic (init_path_graph S) = hic S"
  by (simp add: init_path_graph_def split: prod.splits)

lemma merge_six_bins:
  "merge_to_size (\<lambda>m groups. m) (\<lambda>m. m) six_bins 20
     = Inr (Return_hic (hic six_bins_merged), six_bins_merged)"
  by code_simp













text \<open>
  Claim C3. Whenever the flattened list of flanks is empty, the branch that should warn
  and return evaluates \<^verbatim>\<open>inspect.stack()\<close> without \<^verbatim>\<open>inspect\<close> being imported: the call
  raises \<^verbatim>\<open>NameError\<close> where the claim has a no-op. A matrix with no bin is such a
  state.
\<close>

theorem merge_to_size_nothing_to_reduce_NameError:
  assumes "paths_flatten_loop S target_length (get_all_paths S) = Inr []"
  shows "merge_to_size reduce_matrix iterativeCorrection S target_length = Inl NameError"
  using assms by (simp add: merge_to_size_def)

theorem merge_to_size_no_bins_NameError:
  "paths_flatten_loop no_bins 20 (get_all_paths no_bins) = Inr []
   \<and> merge_to_size (\<lambda>m groups. m) (\<lambda>m. m) no_bins 20 = Inl NameError"
proof -
  have e: "paths_flatten_loop no_bins 20 (get_all_paths no_bins) = Inr []" by code_simp
  from merge_to_size_nothing_to_reduce_NameError [OF e] e show ?thesis by simp
qed

text \<open>
  The other half of the claim holds: with one reduce group whose interval is well formed
  the call returns \<^verbatim>\<open>(None, None)\<close> and leaves the state as it was.
\<close>

lemma merge_to_size_single_group:
  assumes "paths_flatten_loop S target_length (get_all_paths S) = Inr [sub_path]"
    and "new_cut_intervals_loop (contig_G S) [sub_path] = Inr ivs"
  shows "merge_to_size reduce_matrix iterativeCorrection S target_length = Inr (Return_None_None, S)"
  using assms by (simp add: merge_to_size_def)

lemma merge_to_size_single_bin:
  "merge_to_size reduce_matrix iterativeCorrection single_bin 20 = Inr (Return_None_None, single_bin)"
  by code_simp

section \<open>Nearest-neighbour joining\<close>

text \<open>
  One step of the joining loop when \<^verbatim>\<open>add_edge\<close> rejects an edge: for the end of a path
  the loop goes on with the graph as it was; for a single-bin path the exception is the
  result of the loop.
\<close>

lemma join_loop_rejected_flank_edge:
  assumes "length (nx_keys G n) = 1" and "n \<in> set flanks" and "n \<notin> seen"
    and "add_edge g n (nx_keys G n ! 0) = Inl e"
  shows "join_loop G flanks singletons (n # rest) g seen
           = join_loop G flanks singletons rest g (seen \<union> {n, nx_keys G n ! 0})"
  using assms by (simp add: Let_def)

lemma join_loop_rejected_singleton_edge:
  assumes "length (nx_keys G n) = 2" and "n \<in> set singletons" and "n \<notin> seen"
    and "add_edge g n (nx_keys G n ! 0) = Inl e
         \<or> (\<exists>g1. add_edge g n (nx_keys G n ! 0) = Inr g1
                \<and> add_edge g1 n (nx_keys G n ! 1) = Inl e)"
  shows "join_loop G flanks singletons (n # rest) g seen = Inl e"
  using assms by (auto simp: Let_def)

text \<open>
  Claim C7. Four single-bin paths whose contacts above the threshold form the cycle
  0-1-3-2-0. Node 0 is joined to 1 and 2; node 3 is then joined to 1, and its second
  edge, to 2, would close the cycle: \<^verbatim>\<open>add_edge\<close> rejects it, and in this branch of the
  loop nothing catches the exception, which reaches the caller. (The order in which the
  dictionaries of the auxiliary graph yield nodes and neighbours does not matter here:
  whichever node comes first is joined to its two neighbours, and the node opposite to
  it closes the cycle with its second edge.)
\<close>

theorem get_nearest_neighbors_singleton_exception_escapes:
  "get_nearest_neighbors four_singletons 1 = Inl PathGraphEdgeNotPossible"
  by code_simp

text \<open>
  In the other branch of the loop the rejected edge is skipped: the two ends of the one
  path of \<open>six_bins\<close> are in contact, the edge between them is rejected, and the pass
  returns with the graph as it was.
\<close>

lemma get_nearest_neighbors_flank_exception_swallowed:
  "add_edge (contig_G six_bins) 0 5 = Inl PathGraphEdgeNotPossible
   \<and> get_nearest_neighbors six_bins 1 = Inr six_bins"
  by code_simp

section \<open>The path graph after a rebuild\<close>

lemma node_add_path: "node (add_path g p) = node g"
  by (simp add: add_path_def)

lemma node_add_node_fresh:
  "n \<notin> fst ` set (node g) \<Longrightarrow> node (add_node g n a) = node g @ [(n, a)]"
  by (simp add: add_node_def)

lemma node_init_path_graph_loop:
  assumes "fst ` set (node g) \<inter> fst ` set xs = {}" and "distinct (map fst xs)"
  shows "node (fst (init_path_graph_loop xs (g, contig_path, prev_label)))
           = node g @ map (\<lambda>(idx, iv). (idx, interval_attr iv)) xs"
  using assms
proof (induction xs arbitrary: g contig_path prev_label)
  case Nil
  then show ?case by simp
next
  case (Cons e rest)
  obtain idx label start end' coverage where e: "e = (idx, (label, start, end', coverage))"
    by (cases e) auto
  let ?attr = "\<lparr>n_name = label, n_start = start, n_end = end', n_coverage = coverage,
         n_length = end' - start\<rparr>"
  let ?g1 = "add_node g idx ?attr"
  let ?g2 = "if prev_label \<noteq> Some label \<and> length contig_path > 1
             then add_path ?g1 contig_path else ?g1"
  let ?cp = "(if prev_label \<noteq> Some label then [] else contig_path) @ [idx]"
  from Cons.prems(1) have fresh: "idx \<notin> fst ` set (node g)" by (auto simp: e)
  have n2: "node ?g2 = node g @ [(idx, ?attr)]"
    using node_add_node_fresh [OF fresh] by (simp add: node_add_path)
  have disj: "fst ` set (node ?g2) \<inter> fst ` set rest = {}"
    unfolding n2 using Cons.prems by (auto simp: e)
  have dist: "distinct (map fst rest)" using Cons.prems(2) by simp
  have step: "init_path_graph_loop (e # rest) (g, contig_path, prev_label)
      = init_path_graph_loop rest (?g2, ?cp, Some label)"
    by (simp add: e Let_def)
  show ?case
    unfolding step Cons.IH [OF disj dist] n2
    by (simp add: e interval_attr_def)
qed

lemma node_init_path_graph:
  "node (contig_G (init_path_graph \<lparr>hic = h, contig_G = PathGraph_new\<rparr>))
     = map (\<lambda>(idx, iv). (idx, interval_attr iv)) (enumerate 0 (cut_intervals h))"
proof -
  have a: "fst ` set (node PathGraph_new) \<inter> fst ` set (enumerate 0 (cut_intervals h)) = {}"
    by (simp add: PathGraph_new_def)
  have b: "distinct (map fst (enumerate 0 (cut_intervals h)))" by simp
  obtain g cp pl where r: "init_path_graph_loop (enumerate 0 (cut_intervals h)) (PathGraph_new, [], None) = (g, cp, pl)"
    by (cases "init_path_graph_loop (enumerate 0 (cut_intervals h)) (PathGraph_new, [], None)") auto
  from node_init_path_graph_loop [OF a b, of "[]" None] r
  have "node g = map (\<lambda>(idx, iv). (idx, interval_attr iv)) (enumerate 0 (cut_intervals h))"
    by (simp add: PathGraph_new_def)
  then show ?thesis by (simp add: init_path_graph_def r node_add_path)
qed

lemma nodes_are_bins_init:
  "nodes_are_bins (init_path_graph \<lparr>hic = h, contig_G = PathGraph_new\<rparr>)"
proof -
  let ?S = "init_path_graph \<lparr>hic = h, contig_G = PathGraph_new\<rparr>"
  let ?ivs = "cut_intervals h"
  have h: "hic ?S = h" by (simp add: init_path_graph_def split: prod.splits)
  have n: "node (contig_G ?S) = map (\<lambda>(idx, iv). (idx, interval_attr iv)) (enumerate 0 ?ivs)"
    by (rule node_init_path_graph)
  have "map fst (map (\<lambda>(idx, iv). (idx, interval_attr iv)) xs) = map fst xs"
    for xs :: "(nat \<times> interval) list"
    by (induction xs) auto
  from this [of "enumerate 0 ?ivs"]
  have fst: "map fst (node (contig_G ?S)) = [0..<length ?ivs]"
    unfolding n by (simp only: map_fst_enumerate add_0)
  have look: "map_of (node (contig_G ?S)) i = Some (interval_attr (?ivs ! i))" if "i < length ?ivs" for i
  proof -
    have d: "distinct (map fst (node (contig_G ?S)))" unfolding fst by simp
    have "(i, interval_attr (?ivs ! i)) \<in> set (node (contig_G ?S))"
      unfolding n using that by (force simp: in_set_enumerate_eq)
    with d show ?thesis by (simp add: map_of_is_SomeI)
  qed
  show ?thesis
    unfolding nodes_are_bins_def h nodes_def fst using look by (simp add: list_all_iff)
qed

lemma remove_bins_doctest: "remove_bins_by_size remove_doctest 20 = Inr remove_doctest_kept"
  by code_simp

lemma to_keep_doctest:
  "to_keep_loop (contig_G remove_doctest) 20 (get_all_paths remove_doctest) [] = Inr [0, 1, 2]"
  by code_simp

text \<open>
  Claim C10. After construction, after a \<^verbatim>\<open>remove_bins_by_size\<close> that retains at least
  one index, and after a \<^verbatim>\<open>merge_to_size\<close> that returns the new matrix, the nodes of the
  path graph are exactly 0, ..., N - 1 for the N bins of the current matrix object, and
  node i stores name, start, end and coverage of bin i and the length end - start.
\<close>

theorem path_graph_nodes_are_matrix_bins:
  "nodes_are_bins (Scaffolds h)
   \<and> (\<forall>S'. remove_bins_by_size S min_length = Inr S'
          \<and> to_keep_loop (contig_G S) min_length (get_all_paths S) [] \<noteq> Inr []
        \<longrightarrow> nodes_are_bins S')
   \<and> (\<forall>h' S'. merge_to_size reduce_matrix iterativeCorrection S target_length
                  = Inr (Return_hic h', S')
        \<longrightarrow> nodes_are_bins S')"
proof (intro conjI allI impI)
  show "nodes_are_bins (Scaffolds h)"
    unfolding Scaffolds_def by (rule nodes_are_bins_init)
next
  fix S'
  assume a: "remove_bins_by_size S min_length = Inr S'
          \<and> to_keep_loop (contig_G S) min_length (get_all_paths S) [] \<noteq> Inr []"
  then obtain h where "S' = init_path_graph \<lparr>hic = h, contig_G = PathGraph_new\<rparr>"
    by (auto simp: remove_bins_by_size_def split: sum.splits if_splits)
  then show "nodes_are_bins S'" by (simp add: nodes_are_bins_init)
next
  fix h' S'
  assume "merge_to_size reduce_matrix iterativeCorrection S target_length = Inr (Return_hic h', S')"
  then obtain h where "S' = init_path_graph \<lparr>hic = h, contig_G = PathGraph_new\<rparr>"
    by (auto simp: merge_to_size_def Let_def split: sum.splits if_splits)
  then show "nodes_are_bins S'" by (simp add: nodes_are_bins_init)
qed

theorem path_graph_nodes_are_matrix_bins_witness:
  "nodes_are_bins remove_doctest \<and> nodes_are_bins remove_doctest_kept
   \<and> nodes_are_bins six_bins_merged
   \<and> nodes (contig_G remove_doctest_kept) = [0, 1, 2]"
proof -
  note T1 = path_graph_nodes_are_matrix_bins [where
      h = "get_test_matrix
        [(''c-0'', 0, 10, 1), (''c-0'', 10, 20, 1), (''c-0'', 20, 30, 1),
         (''c-2'', 0, 10, 1), (''c-2'', 20, 30, 1), (''c-3'', 0, 10, 1)]"
      and S = remove_doctest and min_length = 20, folded remove_doctest_def]
  note T2 = path_graph_nodes_are_matrix_bins [where
      S = six_bins and reduce_matrix = "\<lambda>m groups. m" and iterativeCorrection = "\<lambda>m. m"
      and target_length = 20]
  have k: "to_keep_loop (contig_G remove_doctest) 20 (get_all_paths remove_doctest) [] \<noteq> Inr []"
    using to_keep_doctest by simp
  have n: "nodes (contig_G remove_doctest_kept) = [0, 1, 2]" by code_simp
  from T1 remove_bins_doctest k have "nodes_are_bins remove_doctest \<and> nodes_are_bins remove_doctest_kept"
    by blast
  moreover from T2 merge_six_bins have "nodes_are_bins six_bins_merged" by blast
  ultimately show ?thesis using n by blast
qed

section \<open>Length filtering\<close>

lemma to_keep_loop_filter:
  "to_keep_loop g min_length ps acc = Inr to_keep \<Longrightarrow>
     \<exists>lens. paths_length_loop g ps = Inr lens
        \<and> to_keep = acc @ concat (map fst (filter (\<lambda>(p, l). min_length < l) (zip ps lens)))"
proof (induction ps arbitrary: acc)
  case Nil
  then show ?case by simp
next
  case (Cons p ps)
  from Cons.prems obtain ls where ls: "node_lengths g p = Inr ls"
    and rest: "to_keep_loop g min_length ps
                 (if sum_list ls > min_length then acc @ p else acc) = Inr to_keep"
    by (auto split: sum.splits)
  from Cons.IH [OF rest] obtain lens where
    lens: "paths_length_loop g ps = Inr lens"
    and tk: "to_keep = (if sum_list ls > min_length then acc @ p else acc)
               @ concat (map fst (filter (\<lambda>(p, l). min_length < l) (zip ps lens)))"
    by blast
  have "paths_length_loop g (p # ps) = Inr (sum_list ls # lens)" using ls lens by simp
  moreover have "to_keep = acc @ concat (map fst (filter (\<lambda>(p, l). min_length < l)
                    (zip (p # ps) (sum_list ls # lens))))"
    using tk by simp
  ultimately show ?case by blast
qed

lemma submatrix_dims:
  "submatrix m to_keep = Inr m' \<Longrightarrow>
     m' = map (\<lambda>i. map (\<lambda>j. m ! i ! j) to_keep) to_keep
     \<and> length m' = length to_keep \<and> list_all (\<lambda>row. length row = length to_keep) m'"
  by (auto simp: submatrix_def Let_def list_all_iff split: if_splits)

lemma get_paths_length_remove_doctest: "get_paths_length remove_doctest = Inr [30, 20, 10]"
  by code_simp

lemma get_all_paths_remove_doctest: "get_all_paths remove_doctest = [[0, 1, 2], [3, 4], [5]]"
  by code_simp

text \<open>
  Claim C8, as stated: for every \<open>min_length\<close> the new matrix has as many rows as there
  are retained indices. With one bin of 30 bp and \<open>min_length = 50\<close> nothing is retained;
  the guard \<^verbatim>\<open>if len(to_keep)\<close> then leaves the matrix as it is, with one row.
\<close>

theorem remove_bins_by_size_nothing_retained_counterexample:
  "to_keep_loop (contig_G single_bin) 50 (get_all_paths single_bin) [] = Inr []
   \<and> remove_bins_by_size single_bin 50 = Inr single_bin
   \<and> length (matrix (hic single_bin)) = 1
   \<and> length (matrix (hic single_bin)) \<noteq> length ([] :: nat list)"
  by code_simp

text \<open>
  Claim C8, amended. The retained indices are those of the paths whose summed length
  (the value \<^verbatim>\<open>get_paths_length\<close> yields for the path) is strictly greater than
  \<open>min_length\<close>; the paths with a summed length less than or equal to it are discarded.
  When at least one index is retained, the new matrix is the sub-matrix at the retained
  indices, its number of rows and the length of every row equal the number of retained
  indices, and the bin list is the retained sub-list. When none is retained the state
  is left as it is.
\<close>

theorem remove_bins_by_size_retained:
  assumes "remove_bins_by_size S min_length = Inr S'"
  shows "\<exists>to_keep lens.
           to_keep_loop (contig_G S) min_length (get_all_paths S) [] = Inr to_keep
         \<and> get_paths_length S = Inr lens
         \<and> to_keep = concat (map fst (filter (\<lambda>(p, l). min_length < l)
                                (zip (get_all_paths S) lens)))
         \<and> (to_keep \<noteq> [] \<longrightarrow>
              matrix (hic S') = map (\<lambda>i. map (\<lambda>j. matrix (hic S) ! i ! j) to_keep) to_keep
              \<and> length (matrix (hic S')) = length to_keep
              \<and> list_all (\<lambda>row. length row = length to_keep) (matrix (hic S'))
              \<and> cut_intervals (hic S') = map (\<lambda>x. cut_intervals (hic S) ! x) to_keep)
         \<and> (to_keep = [] \<longrightarrow> S' = S)"
proof -
  from assms obtain to_keep where
    tk: "to_keep_loop (contig_G S) min_length (get_all_paths S) [] = Inr to_keep"
    by (auto simp: remove_bins_by_size_def split: sum.splits)
  from to_keep_loop_filter [OF tk] obtain lens where
    lens: "get_paths_length S = Inr lens"
    and f: "to_keep = concat (map fst (filter (\<lambda>(p, l). min_length < l)
                                (zip (get_all_paths S) lens)))"
    by (auto simp: get_paths_length_def)
  have e: "to_keep = [] \<longrightarrow> S' = S"
    using assms tk by (auto simp: remove_bins_by_size_def)
  have n: "to_keep \<noteq> [] \<longrightarrow>
              matrix (hic S') = map (\<lambda>i. map (\<lambda>j. matrix (hic S) ! i ! j) to_keep) to_keep
              \<and> length (matrix (hic S')) = length to_keep
              \<and> list_all (\<lambda>row. length row = length to_keep) (matrix (hic S'))
              \<and> cut_intervals (hic S') = map (\<lambda>x. cut_intervals (hic S) ! x) to_keep"
  proof
    assume ne: "to_keep \<noteq> []"
    with assms tk obtain m' ivs' where
      m: "submatrix (matrix (hic S)) to_keep = Inr m'"
      and i: "select_intervals (cut_intervals (hic S)) to_keep = Inr ivs'"
      and S': "S' = init_path_graph \<lparr>hic = update_matrix (hic S) m' ivs', contig_G = PathGraph_new\<rparr>"
      by (auto simp: remove_bins_by_size_def split: sum.splits)
    from i have ivs': "ivs' = map (\<lambda>x. cut_intervals (hic S) ! x) to_keep"
      by (auto simp: select_intervals_def split: if_splits)
    have "matrix (hic S') = m'" "cut_intervals (hic S') = ivs'"
      unfolding S' by (simp_all add: hic_init_path_graph update_matrix_def)
    with submatrix_dims [OF m] ivs'
    show "matrix (hic S') = map (\<lambda>i. map (\<lambda>j. matrix (hic S) ! i ! j) to_keep) to_keep
              \<and> length (matrix (hic S')) = length to_keep
              \<and> list_all (\<lambda>row. length row = length to_keep) (matrix (hic S'))
              \<and> cut_intervals (hic S') = map (\<lambda>x. cut_intervals (hic S) ! x) to_keep"
      by (auto simp: list_all_iff)
  qed
  from tk lens f n e show ?thesis by blast
qed

theorem remove_bins_by_size_retained_witness:
  "remove_bins_by_size remove_doctest 20 = Inr remove_doctest_kept
   \<and> to_keep_loop (contig_G remove_doctest) 20 (get_all_paths remove_doctest) [] = Inr [0, 1, 2]
   \<and> get_paths_length remove_doctest = Inr [30, 20, 10]
   \<and> length (matrix (hic remove_doctest_kept)) = length [0, 1, 2 :: nat]
   \<and> list_all (\<lambda>row. length row = length [0, 1, 2 :: nat]) (matrix (hic remove_doctest_kept))"
proof -
  from remove_bins_by_size_retained [OF remove_bins_doctest] to_keep_doctest
  have "length (matrix (hic remove_doctest_kept)) = length [0, 1, 2 :: nat]
     \<and> list_all (\<lambda>row. length row = length [0, 1, 2 :: nat]) (matrix (hic remove_doctest_kept))"
    by auto
  with remove_bins_doctest to_keep_doctest get_paths_length_remove_doctest show ?thesis by blast
qed

section \<open>When the flattened list is empty\<close>

text \<open>
  The top-level call of \<^verbatim>\<open>get_flanks\<close> on a path that is not empty returns at least one
  flank, so \<^verbatim>\<open>paths_flatten\<close> is empty only when no path is enumerated.
\<close>

lemma get_flanks_top_level_nonempty:
  assumes "get_flanks S p t rr 0 = Inr fs" and "p \<noteq> []" and "0 < rr"
  shows "fs \<noteq> []"
proof -
  note eq = assms(1) [unfolded get_flanks.simps [of S p t rr 0] Let_def]
  from eq assms(3) obtain ls where ls: "node_lengths (contig_G S) p = Inr ls"
    by (auto split: sum.splits if_splits)
  note eq1 = eq [unfolded ls]
  show ?thesis
  proof (cases "length p = 1")
    case True
    with eq1 assms(3) show ?thesis by (auto split: if_splits)
  next
    case False
    with assms(2) have two: "2 \<le> length p" by (cases p) (auto simp: Suc_le_eq)
    let ?pl = "\<lambda>x. the (map_of (zip p ls) x)"
    obtain l r where lr: "left_right_flanks ?pl (of_int t * (3 / 4)) (of_int t * (5 / 4)) p = (l, r)"
      by (cases "left_right_flanks ?pl (of_int t * (3 / 4)) (of_int t * (5 / 4)) p")
    from left_right_flanks_nonempty [OF two lr] have "l \<noteq> []" by simp
    with eq1 assms(3) False lr show ?thesis
      by (auto split: if_splits sum.splits)
  qed
qed

lemma paths_flatten_loop_nonempty:
  assumes "paths_flatten_loop S t ps = Inr groups" and "ps \<noteq> []" and "[] \<notin> set ps"
  shows "groups \<noteq> []"
proof (cases ps)
  case Nil
  with assms(2) show ?thesis by simp
next
  case (Cons p rest)
  with assms(1) obtain fs r where fs: "get_flanks S p t 100 0 = Inr fs"
    and g: "groups = fs @ r"
    by (auto split: sum.splits)
  from Cons assms(3) have "p \<noteq> []" by auto
  from get_flanks_top_level_nonempty [OF fs this] g show ?thesis by simp
qed

end
